theory Spec2Isabelle
  imports Main
begin

section \<open>Power devices\<close>

text \<open>
  Python strings that are only compared and concatenated are modelled as \<open>string\<close>
  (the bytes of their UTF-8 encoding).

  \<open>klippy.PowerDevice\<close> as main.py reads it: a name, the on/off flag
  \<open>device_state\<close> and the text \<open>device_error\<close>. The global
  \<open>psu_power_device\<close> is tested for truth before use, so it is optional
  where a handler makes that test.
\<close>

record power_device =
  name :: string
  device_state :: bool
  device_error :: string

section \<open>The Power Device Proxy (klippy.PowerDevice)\<close>

text \<open>
  The answer of the printer host to one request, as the wire protocol has it: a result,
  or an error with the server's code and message.
\<close>

datatype rpc_response = RpcResult | RpcError int string

text \<open>
  Modelled from the spec: the method \<open>switch_device\<close> of
  \<open>klippy.PowerDevice\<close>, whose module is not among the sources. It issues one
  call and, on success, updates the on/off flag; on an RPC failure it records the error
  text on the device and leaves the prior on/off value unchanged. The model is the
  device after the call; main.py's \<open>button_handler\<close> does not read what the
  method returns.
\<close>

definition switch_device :: "power_device \<Rightarrow> bool \<Rightarrow> rpc_response \<Rightarrow> power_device" where
  "switch_device dev on response =
     (case response of
        RpcResult \<Rightarrow> dev\<lparr>device_state := on\<rparr>
      | RpcError code message \<Rightarrow> dev\<lparr>device_error := message\<rparr>)"

section \<open>The chat layer of the bot (bot/main.py)\<close>

text \<open>
  What a handler does to the outside world is the list of its effects, in the order of
  the source's statements.
\<close>

subsection \<open>Effects of a handler\<close>

text \<open>
  The coroutines that main.py obtains from \<open>ws_helper\<close> (and its own
  \<open>restart_bot\<close>). Calling an \<open>async def\<close> function only makes the
  coroutine object; its body, and so the request to the printer host, runs when the
  object is awaited.
\<close>

datatype coroutine =
    ManagePrinting string
  | EmergencyStopPrinter
  | FirmwareRestartPrinter
  | ShutdownPiHost
  | RebootPiHost
  | ExecuteWsGcodeScript string
  | RestartSystemService string
  | RestartBot

datatype chat_action = TYPING

datatype effect =
    LogWarning string
  | SendChatAction chat_action
  | ReplyText string "string list option"
  | Await coroutine

text \<open>
  \<open>confirm_keyboard\<close> builds one row of two inline buttons; the model keeps
  their callback data (the labels are emoji made by an external library).
\<close>

definition confirm_keyboard :: "string \<Rightarrow> string list" where
  "confirm_keyboard callback_mess = [callback_mess, ''do_nothing'']"

fun reply_texts :: "effect list \<Rightarrow> string list" where
  "reply_texts [] = []"
| "reply_texts (ReplyText t k # es) = t # reply_texts es"
| "reply_texts (e # es) = reply_texts es"

fun awaited :: "effect list \<Rightarrow> coroutine list" where
  "awaited [] = []"
| "awaited (Await c # es) = c # awaited es"
| "awaited (e # es) = awaited es"

subsection \<open>Commands that may ask for confirmation\<close>

text \<open>
  What the handlers read of an update and of the configuration:
  \<open>update.effective_message\<close> and what its \<open>get_bot()\<close> does (the
  source compares the result with \<open>None\<close>; the library method may also
  raise), and the two questions put to \<open>configWrap.telegram_ui\<close> (the
  configuration module is read elsewhere, so they are fields here).
\<close>

datatype get_bot_result = GotBot | GotNone | GetBotRaises

record message =
  get_bot :: get_bot_result

record update =
  effective_message :: "message option"

record telegram_ui =
  is_present_in_require_confirmation :: "string \<Rightarrow> bool"
  confirm_command :: bool

text \<open>
  The awaited calls of the Telegram library and the awaited coroutine are not guarded
  by \<open>try\<close>: when one raises, the handler stops there. Whether each returns
  is given by the environment. A handler yields the calls it made, the raising one
  included, and how it ended.
\<close>

record telegram_api =
  send_chat_action_returns :: bool
  reply_text_returns :: bool
  await_returns :: "coroutine \<Rightarrow> bool"

datatype outcome = Returned | Raised

definition command_exec ::
  "telegram_api \<Rightarrow> string option \<Rightarrow> coroutine \<Rightarrow> effect list \<times> outcome" where
  "command_exec api exec_text exec_func =
     (case exec_text of
        None \<Rightarrow>
          ([Await exec_func], if await_returns api exec_func then Returned else Raised)
      | Some t \<Rightarrow>
          (if reply_text_returns api
           then ([ReplyText t None, Await exec_func],
                 if await_returns api exec_func then Returned else Raised)
           else ([ReplyText t None], Raised)))"

definition command_confirm_message_ext ::
  "telegram_api \<Rightarrow> telegram_ui \<Rightarrow> update \<Rightarrow> string \<Rightarrow> string \<Rightarrow> string \<Rightarrow> string \<Rightarrow>
     coroutine \<Rightarrow> effect list \<times> outcome" where
  "command_confirm_message_ext api ui upd command confirm_text exec_text callback_mess
       exec_func =
     (case effective_message upd of
        None \<Rightarrow> ([LogWarning ''Undefined effective message or bot''], Returned)
      | Some m \<Rightarrow>
         (case get_bot m of
            GotNone \<Rightarrow> ([LogWarning ''Undefined effective message or bot''], Returned)
          | GetBotRaises \<Rightarrow> ([], Raised)
          | GotBot \<Rightarrow>
              (if send_chat_action_returns api then
                 (if is_present_in_require_confirmation ui command \<or> confirm_command ui
                  then ([SendChatAction TYPING,
                         ReplyText confirm_text (Some (confirm_keyboard callback_mess))],
                        if reply_text_returns api then Returned else Raised)
                  else (let (es, out) = command_exec api (Some exec_text) exec_func
                        in (SendChatAction TYPING # es, out)))
               else ([SendChatAction TYPING], Raised))))"

text \<open>The texts of the four handlers, as the bytes of their UTF-8 encoding.\<close>

definition utf8 :: "nat list \<Rightarrow> string" where
  "utf8 bytes = map char_of bytes"

definition pause_confirm_text :: string where
  "pause_confirm_text = utf8
      [208, 159, 208, 190, 209, 129, 209, 130, 208, 176, 208, 178, 208, 184, 209, 130,
       209, 140, 32, 208, 191, 208, 181, 209, 135, 208, 176, 209, 130, 209, 140, 32,
       208, 189, 208, 176, 32, 208, 191, 208, 176, 209, 131, 208, 183, 209, 131, 63]"

definition pause_exec_text :: string where
  "pause_exec_text = utf8
      [208, 159, 208, 181, 209, 135, 208, 176, 209, 130, 209, 140, 32, 208, 189, 208,
       176, 32, 208, 191, 208, 176, 209, 131, 208, 183, 208, 181]"

definition resume_confirm_text :: string where
  "resume_confirm_text = utf8
      [208, 159, 209, 128, 208, 190, 208, 180, 208, 190, 208, 187, 208, 182, 208, 184,
       209, 130, 209, 140, 32, 208, 191, 208, 181, 209, 135, 208, 176, 209, 130, 209,
       140, 63]"

definition resume_exec_text :: string where
  "resume_exec_text = utf8
      [208, 159, 208, 181, 209, 135, 208, 176, 209, 130, 209, 140, 32, 208, 191, 209,
       128, 208, 190, 208, 180, 208, 190, 208, 187, 208, 182, 208, 181, 208, 189, 208,
       176]"

definition cancel_confirm_text :: string where
  "cancel_confirm_text = utf8
      [208, 158, 209, 130, 208, 188, 208, 181, 208, 189, 208, 184, 209, 130, 209, 140,
       32, 208, 191, 208, 181, 209, 135, 208, 176, 209, 130, 209, 140, 63]"

definition cancel_exec_text :: string where
  "cancel_exec_text = utf8
      [208, 159, 208, 181, 209, 135, 208, 176, 209, 130, 209, 140, 32, 208, 190, 209,
       130, 208, 188, 208, 181, 208, 189, 208, 181, 208, 189, 208, 176]"

definition emergency_confirm_text :: string where
  "emergency_confirm_text = utf8
      [208, 146, 209, 139, 208, 191, 208, 190, 208, 187, 208, 189, 208, 184, 209, 130,
       209, 140, 32, 208, 176, 208, 178, 208, 176, 209, 128, 208, 184, 208, 185, 208,
       189, 209, 131, 209, 142, 32, 208, 190, 209, 129, 209, 130, 208, 176, 208, 189,
       208, 190, 208, 178, 208, 186, 209, 131, 63]"

definition emergency_exec_text :: string where
  "emergency_exec_text = utf8
      [208, 144, 208, 178, 208, 176, 209, 128, 208, 184, 208, 185, 208, 189, 208, 176,
       209, 143, 32, 208, 190, 209, 129, 209, 130, 208, 176, 208, 189, 208, 190, 208,
       178, 208, 186, 208, 176, 32, 208, 178, 209, 139, 208, 191, 208, 190, 208, 187,
       208, 189, 208, 181, 208, 189, 208, 176]"

definition pause_printing ::
  "telegram_api \<Rightarrow> telegram_ui \<Rightarrow> update \<Rightarrow> effect list \<times> outcome" where
  "pause_printing api ui upd =
     command_confirm_message_ext api ui upd ''pause'' pause_confirm_text pause_exec_text
       ''pause_printing'' (ManagePrinting ''pause'')"

definition resume_printing ::
  "telegram_api \<Rightarrow> telegram_ui \<Rightarrow> update \<Rightarrow> effect list \<times> outcome" where
  "resume_printing api ui upd =
     command_confirm_message_ext api ui upd ''resume'' resume_confirm_text resume_exec_text
       ''resume_printing'' (ManagePrinting ''resume'')"

definition cancel_printing ::
  "telegram_api \<Rightarrow> telegram_ui \<Rightarrow> update \<Rightarrow> effect list \<times> outcome" where
  "cancel_printing api ui upd =
     command_confirm_message_ext api ui upd ''cancel'' cancel_confirm_text cancel_exec_text
       ''cancel_printing'' (ManagePrinting ''cancel'')"

definition emergency_stop ::
  "telegram_api \<Rightarrow> telegram_ui \<Rightarrow> update \<Rightarrow> effect list \<times> outcome" where
  "emergency_stop api ui upd =
     command_confirm_message_ext api ui upd ''emergency'' emergency_confirm_text
       emergency_exec_text ''emergency_stop'' EmergencyStopPrinter"

text \<open>
  Whether a command handler comes to await its coroutine: the update has an effective
  message with a bot, \<open>send_chat_action\<close> returns, neither the command nor
  the configuration asks for a confirmation, and the \<open>reply_text\<close> of the
  execution text returns.
\<close>

definition executes_now :: "telegram_api \<Rightarrow> telegram_ui \<Rightarrow> update \<Rightarrow> string \<Rightarrow> bool" where
  "executes_now api ui upd command =
     (case effective_message upd of
        None \<Rightarrow> False
      | Some m \<Rightarrow>
          get_bot m = GotBot \<and> send_chat_action_returns api \<and>
          \<not> (is_present_in_require_confirmation ui command \<or> confirm_command ui) \<and>
          reply_text_returns api)"

subsection \<open>power_toggle_no_confirm\<close>

text \<open>
  The source's text argument is
  \<^verbatim>\<open>"Power " + "Off" if psu_power_device.device_state else "On" + " printer?"\<close>.
  A conditional expression binds weaker than \<open>+\<close>, so the two branches are
  \<^verbatim>\<open>"Power " + "Off"\<close> and \<^verbatim>\<open>"On" + " printer?"\<close>.
\<close>

definition power_toggle_no_confirm :: "power_device option \<Rightarrow> effect list" where
  "power_toggle_no_confirm psu_power_device =
     SendChatAction TYPING #
     (case psu_power_device of
        Some d \<Rightarrow>
          [ReplyText
             (if device_state d then ''Power '' @ ''Off'' else ''On'' @ '' printer?'')
             (Some (confirm_keyboard
                (if device_state d then ''power_off_printer'' else ''power_on_printer'')))]
      | None \<Rightarrow>
          [ReplyText
             (''No device defined for /power command in bot config.'' @ [CHR 0x0A] @
              ''Please add a moonraker power device to the bot's config'')
             None])"

subsection \<open>The command list\<close>

text \<open>
  \<open>bot_commands\<close>: the dictionary of the twenty built-in commands, in the order
  of the source, without those named in the configuration's
  \<open>hidden_bot_commands\<close> (a parameter: the configuration is read elsewhere).
\<close>

definition commands_table :: "(string \<times> string) list" where
  "commands_table =
    [(''help'', ''list bot commands''),
     (''status'', ''send klipper status''),
     (''ip'', ''send private ip of the bot installation''),
     (''video'', ''record and upload a video''),
     (''pause'', ''pause printing''),
     (''resume'', ''resume printing''),
     (''cancel'', ''cancel printing''),
     (''power'', ''toggle moonraker power device from config''),
     (''light'', ''toggle light''),
     (''emergency'', ''emergency stop printing''),
     (''shutdown'', ''shutdown bot host gracefully''),
     (''reboot'', ''reboot bot host gracefully''),
     (''bot_restart'', ''restarts the bot service, useful for config updates''),
     (''fw_restart'', ''Execute klipper FIRMWARE_RESTART''),
     (''services'', ''List services and restart them''),
     (''files'', ''list available gcode files''),
     (''macros'', ''list all visible macros from klipper''),
     (''gcode'', ''run any gcode command, spaces are supported. '' @ [CHR 0x22] @
                 ''gcode G28 Z'' @ [CHR 0x22]),
     (''logs'', ''get klipper, moonraker, bot logs''),
     (''logs_upload'', ''upload logs to analyzer'')]"

definition bot_commands :: "string list \<Rightarrow> (string \<times> string) list" where
  "bot_commands hidden_bot_commands =
     filter (\<lambda>(c, a). c \<notin> set hidden_bot_commands) commands_table"

text \<open>
  An entry of the list that \<open>prepare_commands_list\<close> returns: a
  \<open>(command, description)\<close> pair of the dictionary, or a
  \<open>telegram.BotCommand\<close> made from a macro name.
\<close>

datatype command = Item string string | BotCommand string string

text \<open>
  \<open>prepare_command\<close> accepts a macro name when
  \<^verbatim>\<open>re.match("^[a-zA-Z0-9_]{1,32}$", marco)\<close> succeeds. In Python
  \<open>$\<close> also matches just before a newline that ends the string.
\<close>

definition name_char :: "char \<Rightarrow> bool" where
  "name_char c =
     (c \<in> set (''abcdefghijklmnopqrstuvwxyz'' @ ''ABCDEFGHIJKLMNOPQRSTUVWXYZ'' @
               ''0123456789'' @ ''_''))"

definition name_chars :: "string \<Rightarrow> bool" where
  "name_chars w = (1 \<le> length w \<and> length w \<le> 32 \<and> list_all name_char w)"

definition macro_name_match :: "string \<Rightarrow> bool" where
  "macro_name_match s =
     (name_chars s \<or> (s \<noteq> [] \<and> last s = CHR 0x0A \<and> name_chars (butlast s)))"

definition lower_char :: "char \<Rightarrow> char" where
  "lower_char c =
     (if c \<in> set ''ABCDEFGHIJKLMNOPQRSTUVWXYZ''
      then char_of (of_char c + (32::nat)) else c)"

text \<open>
  The constructor \<open>telegram.BotCommand\<close> belongs to an external library; the
  source guards it with \<open>try\<close>, so \<open>accepts\<close> says for which arguments
  it returns without raising. A rejected name gives \<open>None\<close>.
\<close>

definition prepare_command :: "(string \<Rightarrow> string \<Rightarrow> bool) \<Rightarrow> string \<Rightarrow> command option" where
  "prepare_command accepts marco =
     (if macro_name_match marco then
        (if accepts (map lower_char marco) marco
         then Some (BotCommand (map lower_char marco) marco)
         else None)
      else None)"

text \<open>
  \<open>prepare_commands_list\<close>: the built-in commands, then (only with
  \<open>add_macros\<close>) the commands of the accepted macros, cut to the first 99
  entries when there are 100 or more. The source also logs a warning when it cuts.
\<close>

definition prepare_commands_list ::
  "(string \<Rightarrow> string \<Rightarrow> bool) \<Rightarrow> string list \<Rightarrow> string list \<Rightarrow> bool \<Rightarrow> command list" where
  "prepare_commands_list accepts hidden_bot_commands macros add_macros =
     (let commands = map (\<lambda>(c, a). Item c a) (bot_commands hidden_bot_commands) in
      if add_macros then
        (let commands = commands @ List.map_filter (prepare_command accepts) macros in
         if 100 \<le> length commands then take 99 commands else commands)
      else commands)"

subsection \<open>The power callbacks of button_handler\<close>

text \<open>
  The branches of \<open>button_handler\<close> for the callback data
  \<open>power_off_printer\<close> and \<open>power_on_printer\<close> (reached when the message
  replies to another one): switch the PSU device, then reply.
\<close>

definition button_handler_power_off_printer ::
  "power_device \<Rightarrow> rpc_response \<Rightarrow> power_device \<times> effect list" where
  "button_handler_power_off_printer psu_power_device response =
     (let d' = switch_device psu_power_device False response;
          mess = (if device_error d' \<noteq> []
                  then ''Device `'' @ name d' @ ''` failed to toggle off'' @ [CHR 0x0A] @
                       ''Error: '' @ device_error d'
                  else ''Device `'' @ name d' @ ''` toggled off'')
      in (d', [ReplyText mess None]))"

definition button_handler_power_on_printer ::
  "power_device \<Rightarrow> rpc_response \<Rightarrow> power_device \<times> effect list" where
  "button_handler_power_on_printer psu_power_device response =
     (let d' = switch_device psu_power_device True response;
          mess = (if device_error d' \<noteq> []
                  then ''Device `'' @ name d' @ ''` failed to toggle on'' @ [CHR 0x0A] @
                       ''Error: '' @ device_error d'
                  else ''Device `'' @ name d' @ ''` toggled on'')
      in (d', [ReplyText mess None]))"

subsection \<open>SensitiveFormatter\<close>

text \<open>
  A log line is a Python \<open>str\<close>: a list of code points. The filter is
  \<^verbatim>\<open>re.sub(r"\d{10}:[0-9A-Za-z_-]{35}", "**************", s)\<close>. In a
  \<open>str\<close> pattern \<open>\d\<close> is the class of Unicode decimal digits, a table of
  the \<open>re\<close> module: it is the parameter \<open>dig\<close>. The pattern has the
  fixed length 46, so it matches at a position exactly when the next 46 code points fit
  (\<open>token_at\<close>); \<open>re.sub\<close> scans from the left, replaces a match and
  goes on behind it (\<open>sub_token\<close>); \<open>has_token\<close> is
  \<open>re.search\<close>.
\<close>

type_synonym ustr = "nat list"

definition codepoints :: "string \<Rightarrow> ustr" where
  "codepoints s = map of_char s"

definition tok_char :: "nat \<Rightarrow> bool" where
  "tok_char c =
     ((48 \<le> c \<and> c \<le> 57) \<or> (65 \<le> c \<and> c \<le> 90) \<or> (97 \<le> c \<and> c \<le> 122) \<or>
      c = 95 \<or> c = 45)"

definition token_at :: "(nat \<Rightarrow> bool) \<Rightarrow> ustr \<Rightarrow> bool" where
  "token_at dig s =
     (length (take 10 s) = 10 \<and> list_all dig (take 10 s) \<and>
      take 1 (drop 10 s) = [58] \<and>
      length (take 35 (drop 11 s)) = 35 \<and> list_all tok_char (take 35 (drop 11 s)))"

definition stars :: ustr where
  "stars = replicate 14 42"

fun sub_token :: "(nat \<Rightarrow> bool) \<Rightarrow> ustr \<Rightarrow> ustr" where
  "sub_token dig [] = []"
| "sub_token dig (c # cs) =
     (if token_at dig (c # cs) then stars @ sub_token dig (drop 45 cs)
      else c # sub_token dig cs)"

fun has_token :: "(nat \<Rightarrow> bool) \<Rightarrow> ustr \<Rightarrow> bool" where
  "has_token dig [] = False"
| "has_token dig (c # cs) = (token_at dig (c # cs) \<or> has_token dig cs)"

definition SensitiveFormatter_filter :: "(nat \<Rightarrow> bool) \<Rightarrow> ustr \<Rightarrow> ustr" where
  "SensitiveFormatter_filter dig s = sub_token dig s"

definition SensitiveFormatter_format :: "(nat \<Rightarrow> bool) \<Rightarrow> ('r \<Rightarrow> ustr) \<Rightarrow> 'r \<Rightarrow> ustr" where
  "SensitiveFormatter_format dig Formatter_format record =
     (let original = Formatter_format record in SensitiveFormatter_filter dig original)"

text \<open>
  The ASCII digits, for concrete runs, and two log lines: one in which a second
  occurrence of the pattern begins inside the first, and an ordinary request line.
\<close>

definition ascii_digit :: "nat \<Rightarrow> bool" where
  "ascii_digit c = (48 \<le> c \<and> c \<le> 57)"

definition overlapping_tokens :: ustr where
  "overlapping_tokens =
     codepoints (''0123456789:'' @ replicate 25 (CHR ''a'') @ ''0123456789:'' @
                 replicate 35 (CHR ''b''))"

definition sample_record :: ustr where
  "sample_record =
     codepoints (''POST /bot1234567890:'' @ replicate 35 (CHR ''x'') @ ''/getMe'')"

section \<open>The Connection Manager\<close>

text \<open>
  Modelled from the spec: the reconnect backoff of the Connection Manager, whose module
  (websocket_helper) is not among the sources. The delay starts at a fixed base, doubles
  with each consecutive failure and is capped at a maximum; a successful connection
  resets the failure counter to zero. Times are whole seconds. The random jitter that
  the spec mentions is added by the caller and is no part of the delay below.
\<close>

datatype connection_state = Disconnected | Connecting | Connected | Closing

record connection =
  endpoint :: string
  credential :: string
  lifecycle :: connection_state
  failures :: nat
  next_retry :: nat

definition backoff_delay :: "nat \<Rightarrow> nat \<Rightarrow> nat \<Rightarrow> nat" where
  "backoff_delay base cap n = min cap (base * 2 ^ n)"

definition connect_failed :: "nat \<Rightarrow> nat \<Rightarrow> nat \<Rightarrow> connection \<Rightarrow> connection" where
  "connect_failed base cap now c =
     c\<lparr>lifecycle := Disconnected,
       next_retry := now + backoff_delay base cap (failures c),
       failures := Suc (failures c)\<rparr>"

definition connect_succeeded :: "connection \<Rightarrow> connection" where
  "connect_succeeded c = c\<lparr>lifecycle := Connected, failures := 0\<rparr>"

section \<open>Properties\<close>

lemma commands_table_length: "length commands_table = 20"
  by (simp add: commands_table_def)

lemma bot_commands_length: "length (bot_commands hidden) \<le> 20"
proof -
  have "length (bot_commands hidden) \<le> length commands_table"
    unfolding bot_commands_def by (rule length_filter_le)
  then show ?thesis by (simp add: commands_table_length)
qed

text \<open>
  C9. In \<open>power_toggle_no_confirm\<close> with a PSU device, the prompt is exactly
  "Power Off" with callback data "power_off_printer" when \<open>device_state\<close> is true,
  and exactly "On printer?" with callback data "power_on_printer" when it is false;
  the text "Power On printer?" is produced for no device state (and not without a
  device either).
\<close>

theorem power_toggle_no_confirm_prompt:
  "power_toggle_no_confirm (Some d) =
     [SendChatAction TYPING,
      ReplyText (if device_state d then ''Power Off'' else ''On printer?'')
        (Some [if device_state d then ''power_off_printer'' else ''power_on_printer'',
               ''do_nothing''])]
   \<and> ''Power On printer?'' \<notin> set (reply_texts (power_toggle_no_confirm psu))"
  by (cases psu) (simp_all add: power_toggle_no_confirm_def confirm_keyboard_def)

text \<open>
  C10. For every list of macro names and either value of \<open>add_macros\<close>,
  \<open>prepare_commands_list\<close> returns at most 99 entries; with
  \<open>add_macros\<close>, a combined list of 100 or more entries is cut to its first 99.
\<close>

theorem prepare_commands_list_at_most_99:
  "length (prepare_commands_list accepts hidden macros add_macros) \<le> 99
   \<and> prepare_commands_list accepts hidden macros True =
       (let combined = map (\<lambda>(c, a). Item c a) (bot_commands hidden) @
                       List.map_filter (prepare_command accepts) macros
        in if 100 \<le> length combined then take 99 combined else combined)"
proof -
  have "length (bot_commands hidden) \<le> 20" by (rule bot_commands_length)
  then show ?thesis
    by (simp add: prepare_commands_list_def Let_def)
qed

subsection \<open>SensitiveFormatter\<close>

lemma take46: "take 46 s = take 10 s @ take 1 (drop 10 s) @ take 35 (drop 11 s)"
proof -
  have "take 46 s = take (10 + (1 + 35)) s" by simp
  also have "\<dots> = take 10 s @ take 1 (drop 10 s) @ take 35 (drop 11 s)"
    unfolding take_add by simp
  finally show ?thesis .
qed

lemma token_at_take: "token_at dig (take 46 s) = token_at dig s"
  by (simp add: token_at_def drop_take min_def)

lemma token_at_length: "token_at dig s \<Longrightarrow> 46 \<le> length s"
  by (auto simp: token_at_def)

lemma tok_char_not_star: "\<not> tok_char 42"
  by (simp add: tok_char_def)

lemma token_at_no_star:
  assumes "\<not> dig 42" and "token_at dig s"
  shows "42 \<notin> set (take 46 s)"
proof -
  from assms have a: "42 \<notin> set (take 10 s)"
    by (auto simp: token_at_def list_all_iff)
  from assms have b: "42 \<notin> set (take 1 (drop 10 s))"
    by (simp add: token_at_def)
  from assms have c: "42 \<notin> set (take 35 (drop 11 s))"
    using tok_char_not_star by (auto simp: token_at_def list_all_iff)
  show ?thesis using a b c by (simp add: take46)
qed

lemma sub_token_prefix:
  "42 \<notin> set (take k (sub_token dig s)) \<Longrightarrow> take k (sub_token dig s) = take k s"
proof (induction dig s arbitrary: k rule: sub_token.induct)
  case (1 dig)
  then show ?case by simp
next
  case (2 dig c cs)
  show ?case
  proof (cases k)
    case 0
    then show ?thesis by simp
  next
    case (Suc k')
    show ?thesis
    proof (cases "token_at dig (c # cs)")
      case True
      with "2.prems" Suc show ?thesis by (simp add: stars_def)
    next
      case False
      with "2.prems" Suc have "42 \<notin> set (take k' (sub_token dig cs))" by simp
      with False "2.IH"(2) have "take k' (sub_token dig cs) = take k' cs" by blast
      with False Suc show ?thesis by simp
    qed
  qed
qed

lemma token_at_sub_token:
  assumes "\<not> dig 42" and "token_at dig (c # sub_token dig cs)"
  shows "token_at dig (c # cs)"
proof -
  from assms have "42 \<notin> set (take 46 (c # sub_token dig cs))"
    by (rule token_at_no_star)
  then have "42 \<notin> set (take 45 (sub_token dig cs))" by simp
  then have "take 45 (sub_token dig cs) = take 45 cs" by (rule sub_token_prefix)
  then have "take 46 (c # sub_token dig cs) = take 46 (c # cs)" by simp
  then have "token_at dig (take 46 (c # cs))"
    using assms(2) token_at_take [of dig "c # sub_token dig cs"] by simp
  then show ?thesis by (simp only: token_at_take)
qed

lemma token_at_star: "\<not> dig 42 \<Longrightarrow> \<not> token_at dig (42 # s)"
  by (auto simp: token_at_def)

lemma has_token_replicate_star:
  "\<not> dig 42 \<Longrightarrow> has_token dig (replicate n 42 @ s) = has_token dig s"
  by (induction n) (simp_all add: token_at_star)

lemma sub_token_no_token: "\<not> dig 42 \<Longrightarrow> \<not> has_token dig (sub_token dig s)"
proof (induction dig s rule: sub_token.induct)
  case (1 dig)
  then show ?case by simp
next
  case (2 dig c cs)
  show ?case
  proof (cases "token_at dig (c # cs)")
    case True
    with 2 show ?thesis by (simp add: stars_def has_token_replicate_star)
  next
    case False
    with 2 have "\<not> has_token dig (sub_token dig cs)" by simp
    moreover have "\<not> token_at dig (c # sub_token dig cs)"
      using False "2.prems" token_at_sub_token [of dig c cs] by blast
    ultimately show ?thesis using False by simp
  qed
qed

lemma has_token_iff: "has_token dig s = (\<exists>i. token_at dig (drop i s))"
proof (induction s)
  case Nil
  then show ?case by (simp add: token_at_def)
next
  case (Cons c cs)
  show ?case
  proof
    assume "has_token dig (c # cs)"
    then consider "token_at dig (c # cs)" | "has_token dig cs" by auto
    then show "\<exists>i. token_at dig (drop i (c # cs))"
    proof cases
      case 1
      then have "token_at dig (drop 0 (c # cs))" by simp
      then show ?thesis by blast
    next
      case 2
      with Cons obtain i where "token_at dig (drop i cs)" by blast
      then have "token_at dig (drop (Suc i) (c # cs))" by simp
      then show ?thesis by blast
    qed
  next
    assume "\<exists>i. token_at dig (drop i (c # cs))"
    then obtain i where i: "token_at dig (drop i (c # cs))" ..
    show "has_token dig (c # cs)"
    proof (cases i)
      case 0
      with i show ?thesis by simp
    next
      case (Suc j)
      with i have "token_at dig (drop j cs)" by simp
      with Cons show ?thesis by auto
    qed
  qed
qed

lemma sub_token_at:
  assumes "token_at dig s"
  shows "sub_token dig s = stars @ sub_token dig (drop 46 s)"
proof (cases s)
  case Nil
  with assms show ?thesis by (simp add: token_at_def)
next
  case (Cons c cs)
  with assms show ?thesis by simp
qed

lemma sub_token_first:
  assumes "\<forall>i<length pre. \<not> token_at dig (drop i (pre @ t @ rest))"
    and "length t = 46" and "token_at dig t"
  shows "sub_token dig (pre @ t @ rest) = pre @ stars @ sub_token dig rest"
  using assms(1)
proof (induction pre)
  case Nil
  from assms(2) have "take 46 (t @ rest) = t" by simp
  with assms(3) have "token_at dig (t @ rest)"
    using token_at_take [of dig "t @ rest"] by simp
  then have "sub_token dig (t @ rest) = stars @ sub_token dig (drop 46 (t @ rest))"
    by (rule sub_token_at)
  with assms(2) show ?case by simp
next
  case (Cons p pre)
  from Cons.prems have "\<not> token_at dig (drop 0 ((p # pre) @ t @ rest))" by blast
  then have here: "\<not> token_at dig (p # pre @ t @ rest)" by simp
  have "\<forall>i<length pre. \<not> token_at dig (drop i (pre @ t @ rest))"
  proof (intro allI impI)
    fix i assume "i < length pre"
    then have "Suc i < length (p # pre)" by simp
    with Cons.prems have "\<not> token_at dig (drop (Suc i) ((p # pre) @ t @ rest))" by blast
    then show "\<not> token_at dig (drop i (pre @ t @ rest))" by simp
  qed
  with Cons.IH have "sub_token dig (pre @ t @ rest) = pre @ stars @ sub_token dig rest" .
  with here show ?case by simp
qed

lemma star_in_take:
  assumes "length xs < 46" and "0 < n"
  shows "42 \<in> set (take 46 (xs @ replicate n 42 @ b))"
proof -
  from assms(2) obtain m where n: "n = Suc m" by (cases n) auto
  from assms(1) obtain j where j: "46 - length xs = Suc j" by (cases "46 - length xs") auto
  show ?thesis by (simp add: n j)
qed

lemma has_token_around_stars:
  assumes "\<not> dig 42" and "0 < n"
  shows "has_token dig (a @ replicate n 42 @ b) \<Longrightarrow> has_token dig a \<or> has_token dig b"
proof (induction a)
  case Nil
  with assms(1) show ?case by (simp add: has_token_replicate_star)
next
  case (Cons c a)
  show ?case
  proof (cases "token_at dig ((c # a) @ replicate n 42 @ b)")
    case True
    with assms(1) have ns: "42 \<notin> set (take 46 ((c # a) @ replicate n 42 @ b))"
      by (rule token_at_no_star)
    have len: "46 \<le> length (c # a)"
    proof (rule ccontr)
      assume "\<not> 46 \<le> length (c # a)"
      then have "length (c # a) < 46" by simp
      then have "42 \<in> set (take 46 ((c # a) @ replicate n 42 @ b))"
        using assms(2) by (rule star_in_take)
      with ns show False by blast
    qed
    then have eq: "take 46 ((c # a) @ replicate n 42 @ b) = take 46 (c # a)" by simp
    from True have "token_at dig (take 46 ((c # a) @ replicate n 42 @ b))"
      by (simp only: token_at_take)
    then have "token_at dig (take 46 (c # a))" unfolding eq .
    then have "token_at dig (c # a)" by (simp only: token_at_take)
    then show ?thesis by simp
  next
    case False
    with Cons.prems have "has_token dig (a @ replicate n 42 @ b)" by simp
    with Cons.IH show ?thesis by auto
  qed
qed

text \<open>
  C8 (as amended). Whatever the class of decimal digits is, as long as the asterisk is not
  in it: the string returned by \<open>SensitiveFormatter.format\<close> has no substring
  matching the bot-token pattern (the pattern matches at no index of it); an occurrence that the scan from the left reaches (no
  occurrence starts before it in the part scanned) is replaced by the fourteen asterisks
  and the scan goes on behind it; and a match in a string around the asterisks lies wholly
  before or wholly behind them, so the replacement creates no match.
\<close>

theorem SensitiveFormatter_format_masks:
  assumes "\<not> dig 42"
  shows "\<not> has_token dig (SensitiveFormatter_format dig Formatter_format record)
    \<and> \<not> token_at dig (drop i (SensitiveFormatter_format dig Formatter_format record))
    \<and> ((\<forall>i<length pre. \<not> token_at dig (drop i (pre @ t @ rest))) \<and> length t = 46 \<and>
        token_at dig t \<longrightarrow>
        SensitiveFormatter_filter dig (pre @ t @ rest) =
          pre @ stars @ SensitiveFormatter_filter dig rest)
    \<and> (has_token dig (a @ stars @ b) \<longrightarrow> has_token dig a \<or> has_token dig b)"
proof (intro conjI impI)
  show none: "\<not> has_token dig (SensitiveFormatter_format dig Formatter_format record)"
    using assms
    by (simp add: SensitiveFormatter_format_def SensitiveFormatter_filter_def
        sub_token_no_token)
  then show "\<not> token_at dig (drop i (SensitiveFormatter_format dig Formatter_format record))"
    unfolding has_token_iff by blast
next
  assume "(\<forall>i<length pre. \<not> token_at dig (drop i (pre @ t @ rest))) \<and> length t = 46 \<and>
        token_at dig t"
  then show "SensitiveFormatter_filter dig (pre @ t @ rest) =
          pre @ stars @ SensitiveFormatter_filter dig rest"
    unfolding SensitiveFormatter_filter_def by (intro sub_token_first) simp_all
next
  assume "has_token dig (a @ stars @ b)"
  then show "has_token dig a \<or> has_token dig b"
    using assms has_token_around_stars [of dig 14 a b] by (simp add: stars_def)
qed

lemma sample_parts:
  "sample_record = codepoints ''POST /bot'' @
      codepoints (''1234567890:'' @ replicate 35 (CHR ''x'')) @ codepoints ''/getMe''"
  by (simp add: sample_record_def codepoints_def)

theorem SensitiveFormatter_format_masks_witness:
  "\<not> ascii_digit 42
   \<and> \<not> has_token ascii_digit (SensitiveFormatter_format ascii_digit (\<lambda>r. r) sample_record)
   \<and> SensitiveFormatter_filter ascii_digit sample_record =
       codepoints ''POST /bot'' @ stars @ codepoints ''/getMe''
   \<and> has_token ascii_digit sample_record"
proof -
  have d: "\<not> ascii_digit 42" by (simp add: ascii_digit_def)
  have pre: "\<forall>i<length (codepoints ''POST /bot'').
      \<not> token_at ascii_digit (drop i (codepoints ''POST /bot'' @
        codepoints (''1234567890:'' @ replicate 35 (CHR ''x'')) @ codepoints ''/getMe''))"
    by code_simp
  have t: "length (codepoints (''1234567890:'' @ replicate 35 (CHR ''x''))) = 46"
    by code_simp
  have tk: "token_at ascii_digit (codepoints (''1234567890:'' @ replicate 35 (CHR ''x'')))"
    by code_simp
  have r: "SensitiveFormatter_filter ascii_digit (codepoints ''/getMe'') = codepoints ''/getMe''"
    by code_simp
  have h: "has_token ascii_digit sample_record" by code_simp
  from SensitiveFormatter_format_masks [of ascii_digit "\<lambda>r. r" sample_record 0
      "codepoints ''POST /bot''" "codepoints (''1234567890:'' @ replicate 35 (CHR ''x''))"
      "codepoints ''/getMe''"] pre t tk r d h
  show ?thesis by (simp add: sample_parts)
qed

text \<open>
  C8, the claim as stated, fails for an occurrence that begins inside an earlier one: in
  \<open>overlapping_tokens\<close> the pattern matches at index 0 and at index 36; only
  the first match is replaced, and the last 36 code points of the second occurrence (the
  colon and the 35 characters behind it) stay in the output.
\<close>

theorem overlapping_occurrence_survives:
  "token_at ascii_digit (drop 36 overlapping_tokens)
   \<and> SensitiveFormatter_format ascii_digit (\<lambda>r. r) overlapping_tokens =
       stars @ drop 10 (drop 36 overlapping_tokens)
   \<and> drop 10 (drop 36 overlapping_tokens) = codepoints (CHR '':'' # replicate 35 (CHR ''b''))"
  by code_simp

subsection \<open>Print control commands\<close>

lemma awaited_command_exec:
  "awaited (fst (command_exec api (Some t) c)) = (if reply_text_returns api then [c] else [])"
  by (simp add: command_exec_def)

lemma awaited_command_confirm_message_ext:
  "awaited (fst (command_confirm_message_ext api ui upd command confirm_text exec_text
      callback_mess c)) =
     (if executes_now api ui upd command then [c] else [])"
proof (cases "effective_message upd")
  case None
  then show ?thesis
    by (simp add: command_confirm_message_ext_def executes_now_def)
next
  case (Some m)
  show ?thesis
  proof (cases "get_bot m")
    case GotBot
    with Some show ?thesis
      using awaited_command_exec [of api exec_text c]
      by (simp add: command_confirm_message_ext_def executes_now_def split_beta)
  next
    case GotNone
    with Some show ?thesis
      by (simp add: command_confirm_message_ext_def executes_now_def)
  next
    case GetBotRaises
    with Some show ?thesis
      by (simp add: command_confirm_message_ext_def executes_now_def)
  qed
qed

text \<open>
  C7 (as amended). Each of the handlers of /pause, /resume, /cancel and /emergency awaits
  at most one coroutine: exactly \<open>ws_helper.manage_printing\<close> with "pause",
  "resume" or "cancel" (\<open>ws_helper.emergency_stop_printer\<close> for /emergency) when
  the update has an effective message with a bot, no confirmation is asked for, and the
  \<open>send_chat_action\<close> and \<open>reply_text\<close> calls before it return without
  raising; and none otherwise.
\<close>

theorem print_control_handlers_awaited:
  "awaited (fst (pause_printing api ui upd)) =
     (if executes_now api ui upd ''pause'' then [ManagePrinting ''pause''] else [])
   \<and> awaited (fst (resume_printing api ui upd)) =
     (if executes_now api ui upd ''resume'' then [ManagePrinting ''resume''] else [])
   \<and> awaited (fst (cancel_printing api ui upd)) =
     (if executes_now api ui upd ''cancel'' then [ManagePrinting ''cancel''] else [])
   \<and> awaited (fst (emergency_stop api ui upd)) =
     (if executes_now api ui upd ''emergency'' then [EmergencyStopPrinter] else [])"
  by (simp only: pause_printing_def resume_printing_def cancel_printing_def
      emergency_stop_def awaited_command_confirm_message_ext simp_thms)

text \<open>
  C7, the claim as stated, fails when the configuration asks for a confirmation of every
  command: /pause then only replies with the confirmation keyboard and awaits nothing,
  also when every call of the Telegram library returns.
\<close>

theorem pause_printing_with_confirmation:
  "awaited (fst (pause_printing
      \<lparr>send_chat_action_returns = True, reply_text_returns = True,
        await_returns = (\<lambda>c. True)\<rparr>
      \<lparr>is_present_in_require_confirmation = (\<lambda>c. False), confirm_command = True\<rparr>
      \<lparr>effective_message = Some \<lparr>get_bot = GotBot\<rparr>\<rparr>)) = []
   \<and> pause_printing
      \<lparr>send_chat_action_returns = True, reply_text_returns = True,
        await_returns = (\<lambda>c. True)\<rparr>
      \<lparr>is_present_in_require_confirmation = (\<lambda>c. False), confirm_command = True\<rparr>
      \<lparr>effective_message = Some \<lparr>get_bot = GotBot\<rparr>\<rparr> =
     ([SendChatAction TYPING,
       ReplyText pause_confirm_text (Some [''pause_printing'', ''do_nothing''])], Returned)"
  by (simp add: pause_printing_def command_confirm_message_ext_def confirm_keyboard_def)

subsection \<open>Power devices\<close>

text \<open>
  C5. When \<open>switch_device\<close> fails with an RPC error, the on/off flag keeps its
  prior value and \<open>device_error\<close> is the server's message, also through the
  \<open>power_on_printer\<close> and \<open>power_off_printer\<close> callbacks; the flag after
  the call is the requested one on success and the prior one on failure.
\<close>

theorem switch_device_rpc_error:
  "device_state (switch_device d on (RpcError code msg)) = device_state d
   \<and> device_error (switch_device d on (RpcError code msg)) = msg
   \<and> device_state (switch_device d on response) =
       (case response of RpcResult \<Rightarrow> on | RpcError c m \<Rightarrow> device_state d)
   \<and> fst (button_handler_power_on_printer d (RpcError code msg)) = d\<lparr>device_error := msg\<rparr>
   \<and> fst (button_handler_power_off_printer d (RpcError code msg)) = d\<lparr>device_error := msg\<rparr>"
  by (simp add: switch_device_def button_handler_power_on_printer_def
      button_handler_power_off_printer_def Let_def split: rpc_response.splits)

subsection \<open>Reconnect backoff\<close>

lemma backoff_delay_1_60: "backoff_delay 1 60 (6 + n) = 60"
proof -
  have "(2::nat) ^ (6 + n) = 64 * 2 ^ n" by (simp add: power_add)
  moreover have "(1::nat) \<le> 2 ^ n" by simp
  ultimately have "(60::nat) \<le> 2 ^ (6 + n)" by linarith
  then show ?thesis by (simp add: backoff_delay_def)
qed

text \<open>
  C2. The backoff delay after \<open>n\<close> consecutive failures does not decrease with
  \<open>n\<close> and never exceeds the cap; with base 1 and cap 60 the delays are
  1, 2, 4, 8, 16, 32, 60, 60 and stay 60; a failure schedules the retry after the delay of
  the failures so far and counts one more; a successful connection resets the counter.
\<close>

theorem backoff_delay_monotone_capped:
  "backoff_delay base cap n \<le> backoff_delay base cap (n + k)
   \<and> backoff_delay base cap n \<le> cap
   \<and> map (backoff_delay 1 60) [0, 1, 2, 3, 4, 5, 6, 7] = [1, 2, 4, 8, 16, 32, 60, 60]
   \<and> backoff_delay 1 60 (6 + n) = 60
   \<and> next_retry (connect_failed base cap now c) = now + backoff_delay base cap (failures c)
   \<and> failures (connect_failed base cap now c) = Suc (failures c)
   \<and> failures (connect_succeeded c) = 0"
proof -
  have "base * 2 ^ n \<le> base * 2 ^ (n + k)" by (simp add: power_add)
  then have mono: "backoff_delay base cap n \<le> backoff_delay base cap (n + k)"
    unfolding backoff_delay_def by (simp add: min.coboundedI2)
  have cap: "backoff_delay base cap n \<le> cap" by (simp add: backoff_delay_def)
  have run: "map (backoff_delay 1 60) [0, 1, 2, 3, 4, 5, 6, 7] = [1, 2, 4, 8, 16, 32, 60, 60]"
    by (simp add: backoff_delay_def)
  show ?thesis
    using mono cap run backoff_delay_1_60 [of n]
    by (simp add: connect_failed_def connect_succeeded_def)
qed

end
